theory Spec2Isabelle
  imports Complex_Main "HOL-Library.Word"
begin

section \<open>The ECS world (package ecs)\<close>

text \<open>
  The entity store of the engine. \<open>EntityID\<close> is Go's \<open>uint64\<close>, so the counter
  \<open>nextEntityID\<close> is a 64-bit word and \<open>w.nextEntityID++\<close> wraps around.
  Go's \<open>float32\<close> and \<open>float64\<close> payloads are idealised as real numbers.
  The world keeps \<open>*Entity\<close> pointers; every pointer is created by \<open>CreateEntity\<close> and
  stored under one key only, so the map holds the entity records by value.
  The mutex calls are left out: every operation below is one critical section.
\<close>

type_synonym EntityID = "64 word"

type_synonym Vec3 = "real \<times> real \<times> real"

text \<open>
  The component catalogue of components.go. A value of this type is a non-nil
  \<open>Component\<close> interface value; Go's \<open>nil\<close> result of \<open>GetComponent\<close> is \<open>None\<close>.
  The world stores pointers to the component structs, but no world operation reads or
  writes a payload, so a component is carried by value. \<open>AddComponent\<close> calls \<open>GetType\<close>
  on its argument as soon as the entity exists, which panics on a \<open>nil\<close> interface: the
  argument type leaves that call out.
\<close>

datatype Component =
    TransformComponent Vec3 Vec3 Vec3
  | MeshComponent string bool
  | PhysicsComponent "64 word" real bool
  | AudioComponent string real bool
  | TagComponent "string list"

fun GetType :: "Component \<Rightarrow> string" where
  "GetType (TransformComponent position rotation scale) = ''transform''"
| "GetType (MeshComponent meshID visible) = ''mesh''"
| "GetType (PhysicsComponent bodyID mass active) = ''physics''"
| "GetType (AudioComponent soundID volume loop) = ''audio''"
| "GetType (TagComponent tags) = ''tag''"

record Entity =
  ID :: EntityID
  Components :: "string \<rightharpoonup> Component"
  Active :: bool

text \<open>
  A system is an opaque callback object; the world operations modelled here only ever
  call \<open>GetName\<close> on it. \<open>ident\<close> stands for the identity of the object, so that two
  systems reporting the same name stay distinguishable.
\<close>

datatype System = System (GetName: string) (ident: nat)

record World =
  entities :: "EntityID \<rightharpoonup> Entity"
  components :: "string \<rightharpoonup> Component list"
  systems :: "System list"
  nextEntityID :: EntityID

definition NewWorld :: World where
  "NewWorld = \<lparr>entities = Map.empty, components = Map.empty, systems = [], nextEntityID = 0\<rparr>"

definition CreateEntity :: "World \<Rightarrow> EntityID \<times> World" where
  "CreateEntity w =
     (let entityID = nextEntityID w;
          w1 = w\<lparr>nextEntityID := nextEntityID w + 1\<rparr>;
          entity = \<lparr>ID = entityID, Components = Map.empty, Active = True\<rparr>
      in (entityID, w1\<lparr>entities := (entities w1)(entityID \<mapsto> entity)\<rparr>))"

text \<open>
  \<open>removeComponentFromList\<close> walks the per-type list and deletes the first element
  that is not \<open>nil\<close>, then breaks. No element of the list is \<open>nil\<close> (\<open>AddComponent\<close> calls
  \<open>GetType\<close> on the value before appending it), so the element deleted is the one at
  index 0, whatever entity it belongs to.
\<close>

fun remove_first_non_nil :: "Component list \<Rightarrow> Component list" where
  "remove_first_non_nil [] = []"
| "remove_first_non_nil (component # rest) = rest"

definition removeComponentFromList :: "World \<Rightarrow> EntityID \<Rightarrow> string \<Rightarrow> World" where
  "removeComponentFromList w entityID componentType =
     (case components w componentType of
        None \<Rightarrow> w
      | Some cs \<Rightarrow> w\<lparr>components := (components w)(componentType \<mapsto> remove_first_non_nil cs)\<rparr>)"

text \<open>
  \<open>DestroyEntity\<close> ranges over the keys of the entity's component map. Go leaves the
  order of a map range unspecified, so the order \<open>ks\<close> in which the keys are visited is an
  argument of the model.
\<close>

definition DestroyEntity :: "World \<Rightarrow> EntityID \<Rightarrow> string list \<Rightarrow> World" where
  "DestroyEntity w entityID ks =
     (case entities w entityID of
        None \<Rightarrow> w
      | Some entity \<Rightarrow>
          (let w1 = fold (\<lambda>componentType w'. removeComponentFromList w' entityID componentType) ks w
           in w1\<lparr>entities := (entities w1)(entityID := None)\<rparr>))"

definition AddComponent :: "World \<Rightarrow> EntityID \<Rightarrow> Component \<Rightarrow> World" where
  "AddComponent w entityID component =
     (case entities w entityID of
        None \<Rightarrow> w
      | Some entity \<Rightarrow>
          (let componentType = GetType component;
               entity' = entity\<lparr>Components := (Components entity)(componentType \<mapsto> component)\<rparr>;
               w1 = w\<lparr>entities := (entities w)(entityID \<mapsto> entity')\<rparr>;
               old = (case components w1 componentType of None \<Rightarrow> [] | Some cs \<Rightarrow> cs)
           in w1\<lparr>components := (components w1)(componentType \<mapsto> old @ [component])\<rparr>))"

definition RemoveComponent :: "World \<Rightarrow> EntityID \<Rightarrow> string \<Rightarrow> World" where
  "RemoveComponent w entityID componentType =
     (case entities w entityID of
        None \<Rightarrow> w
      | Some entity \<Rightarrow>
          (case Components entity componentType of
             None \<Rightarrow> w
           | Some c \<Rightarrow>
               (let entity' = entity\<lparr>Components := (Components entity)(componentType := None)\<rparr>;
                    w1 = w\<lparr>entities := (entities w)(entityID \<mapsto> entity')\<rparr>
                in removeComponentFromList w1 entityID componentType)))"

definition GetComponent :: "World \<Rightarrow> EntityID \<Rightarrow> string \<Rightarrow> Component option" where
  "GetComponent w entityID componentType =
     (case entities w entityID of
        None \<Rightarrow> None
      | Some entity \<Rightarrow> Components entity componentType)"

text \<open>
  \<open>GetEntitiesWithComponent\<close> ranges over the entity map; \<open>ord\<close> is the order in which
  that range yields the keys.
\<close>

definition hasComponent :: "World \<Rightarrow> string \<Rightarrow> EntityID \<Rightarrow> bool" where
  "hasComponent w componentType entityID =
     (case entities w entityID of
        None \<Rightarrow> False
      | Some entity \<Rightarrow> Components entity componentType \<noteq> None)"

definition GetEntitiesWithComponent :: "World \<Rightarrow> EntityID list \<Rightarrow> string \<Rightarrow> EntityID list" where
  "GetEntitiesWithComponent w ord componentType = filter (hasComponent w componentType) ord"

definition AddSystem :: "World \<Rightarrow> System \<Rightarrow> World" where
  "AddSystem w system = w\<lparr>systems := systems w @ [system]\<rparr>"

text \<open>
  The loop of \<open>RemoveSystem\<close>: at the first index \<open>i\<close> whose system reports the name,
  the list becomes \<open>systems[:i]\<close> followed by \<open>systems[i+1:]\<close> and the loop breaks.
\<close>

function RemoveSystem_loop :: "string \<Rightarrow> System list \<Rightarrow> nat \<Rightarrow> System list" where
  "RemoveSystem_loop systemName ss i =
     (if i < length ss
      then (if GetName (ss ! i) = systemName
            then take i ss @ drop (i + 1) ss
            else RemoveSystem_loop systemName ss (i + 1))
      else ss)"
  by pat_completeness auto
termination
  by (relation "measure (\<lambda>(systemName, ss, i). length ss - i)") auto

declare RemoveSystem_loop.simps [simp del]

definition RemoveSystem :: "World \<Rightarrow> string \<Rightarrow> World" where
  "RemoveSystem w systemName = w\<lparr>systems := RemoveSystem_loop systemName (systems w) 0\<rparr>"

definition GetEntityCount :: "World \<Rightarrow> nat" where
  "GetEntityCount w = card (dom (entities w))"

definition GetSystemCount :: "World \<Rightarrow> nat" where
  "GetSystemCount w = length (systems w)"

text \<open>
  \<open>World.Update\<close> hands the world to every registered system. The fields of the world
  are unexported, so whatever a system or any other caller does to the world is a series
  of calls of the operations above. Such a series is an \<open>Op\<close> list; \<open>calls\<close> runs it
  and collects, in order, the IDs that the \<open>CreateEntity\<close> calls return.
\<close>

datatype Op =
    OpCreateEntity
  | OpDestroyEntity EntityID "string list"
  | OpAddComponent EntityID Component
  | OpRemoveComponent EntityID string
  | OpAddSystem System
  | OpRemoveSystem string

fun call :: "World \<Rightarrow> Op \<Rightarrow> EntityID list \<times> World" where
  "call w OpCreateEntity = ([fst (CreateEntity w)], snd (CreateEntity w))"
| "call w (OpDestroyEntity entityID ks) = ([], DestroyEntity w entityID ks)"
| "call w (OpAddComponent entityID component) = ([], AddComponent w entityID component)"
| "call w (OpRemoveComponent entityID componentType) =
     ([], RemoveComponent w entityID componentType)"
| "call w (OpAddSystem system) = ([], AddSystem w system)"
| "call w (OpRemoveSystem systemName) = ([], RemoveSystem w systemName)"

fun calls :: "World \<Rightarrow> Op list \<Rightarrow> EntityID list \<times> World" where
  "calls w [] = ([], w)"
| "calls w (c # cs) =
     (fst (call w c) @ fst (calls (snd (call w c)) cs), snd (calls (snd (call w c)) cs))"

text \<open>The number of \<open>CreateEntity\<close> calls in a series.\<close>

definition creations :: "Op list \<Rightarrow> nat" where
  "creations cs = length (filter (\<lambda>c. c = OpCreateEntity) cs)"

text \<open>
  Two worlds are identical except for the \<open>Active\<close> flags of their entities when they
  are equal once every flag is overwritten with the same value.
\<close>

definition forget_Active :: "World \<Rightarrow> World" where
  "forget_Active w =
     w\<lparr>entities := (\<lambda>entityID. map_option (\<lambda>e. e\<lparr>Active := True\<rparr>) (entities w entityID))\<rparr>"

text \<open>
  Two worlds for the examples: one entity carrying a tag component, and the same world
  with the entity's \<open>Active\<close> flag cleared.
\<close>

definition tagged_world :: World where
  "tagged_world = snd (calls NewWorld [OpCreateEntity, OpAddComponent 0 (TagComponent [''player''])])"

definition deactivated_world :: World where
  "deactivated_world =
     tagged_world\<lparr>entities := (entities tagged_world)
       (0 \<mapsto> \<lparr>ID = 0, Components = [''tag'' \<mapsto> TagComponent [''player'']], Active = False\<rparr>)\<rparr>"

section \<open>The physics world (package physics)\<close>

text \<open>
  Go's \<open>float64\<close> is idealised as the real numbers: no rounding, no infinities, no NaN.
  The two divisions of the source are guarded (\<open>mass > 0\<close>, \<open>distance\<close> replaced by 1
  when it is 0), so HOL's \<open>x / 0 = 0\<close> is never reached.

  The idealisation says nothing about a run in which an operand is an infinity or a NaN,
  or in which a result overflows: in \<open>float64\<close> an overflowing product is an infinity
  and an infinity times 0 is NaN, where the real product times 0 is 0. A statement
  that rests on a product with 0 is therefore made for values in the finite range of
  \<open>float64\<close> only: \<open>MaxFloat64\<close> is \<open>math.MaxFloat64\<close>, the largest finite value, and
  \<open>finite64 x\<close> says that \<open>x\<close> lies within it.
\<close>

record Vector2 =
  X :: real
  Y :: real

definition MaxFloat64 :: real where
  "MaxFloat64 = 2 ^ 1024 - 2 ^ 971"

definition finite64 :: "real \<Rightarrow> bool" where
  "finite64 x = (\<bar>x\<bar> \<le> MaxFloat64)"

definition finite_vector :: "Vector2 \<Rightarrow> bool" where
  "finite_vector v = (finite64 (X v) \<and> finite64 (Y v))"

definition Add :: "Vector2 \<Rightarrow> Vector2 \<Rightarrow> Vector2" where
  "Add v other = \<lparr>X = X v + X other, Y = Y v + Y other\<rparr>"

definition Sub :: "Vector2 \<Rightarrow> Vector2 \<Rightarrow> Vector2" where
  "Sub v other = \<lparr>X = X v - X other, Y = Y v - Y other\<rparr>"

definition Mul :: "Vector2 \<Rightarrow> real \<Rightarrow> Vector2" where
  "Mul v scalar = \<lparr>X = X v * scalar, Y = Y v * scalar\<rparr>"

definition Div :: "Vector2 \<Rightarrow> real \<Rightarrow> Vector2" where
  "Div v scalar = \<lparr>X = X v / scalar, Y = Y v / scalar\<rparr>"

definition Length :: "Vector2 \<Rightarrow> real" where
  "Length v = sqrt (X v * X v + Y v * Y v)"

text \<open>
  The fields \<open>ID\<close> and \<open>Active\<close> of the Go struct are \<open>BodyID\<close> and \<open>BodyActive\<close> here,
  the entity record above having taken the plain names.
\<close>

record RigidBody =
  BodyID :: "64 word"
  Position :: Vector2
  Velocity :: Vector2
  Force :: Vector2
  Mass :: real
  InverseMass :: real
  Width :: real
  Height :: real
  BodyActive :: bool

definition NewRigidBody :: "64 word \<Rightarrow> Vector2 \<Rightarrow> real \<Rightarrow> real \<Rightarrow> real \<Rightarrow> RigidBody" where
  "NewRigidBody bodyID position width height mass =
     (let inverseMass = (if mass > 0 then 1 / mass else 0)
      in \<lparr>BodyID = bodyID, Position = position, Velocity = \<lparr>X = 0, Y = 0\<rparr>,
          Force = \<lparr>X = 0, Y = 0\<rparr>, Mass = mass, InverseMass = inverseMass,
          Width = width, Height = height, BodyActive = True\<rparr>)"

text \<open>
  The world maps body IDs to \<open>*RigidBody\<close> pointers and \<open>Update\<close> mutates the bodies
  through them. A pointer is a reference \<open>ref\<close> into an explicit store, the \<open>heap\<close>;
  the same reference may sit under several keys, as the same pointer may in Go.
\<close>

type_synonym ref = nat

type_synonym heap = "ref \<Rightarrow> RigidBody"

record PhysicsWorld =
  bodies :: "64 word \<rightharpoonup> ref"
  gravity :: Vector2
  timeStep :: real

definition NewPhysicsWorld :: PhysicsWorld where
  "NewPhysicsWorld =
     \<lparr>bodies = Map.empty, gravity = \<lparr>X = 0, Y = - (981 / 100)\<rparr>, timeStep = 1 / 60\<rparr>"

definition AddBody :: "heap \<Rightarrow> PhysicsWorld \<Rightarrow> ref \<Rightarrow> PhysicsWorld" where
  "AddBody h w body = w\<lparr>bodies := (bodies w)(BodyID (h body) \<mapsto> body)\<rparr>"

definition RemoveBody :: "PhysicsWorld \<Rightarrow> 64 word \<Rightarrow> PhysicsWorld" where
  "RemoveBody w bodyID = w\<lparr>bodies := (bodies w)(bodyID := None)\<rparr>"

definition GetBody :: "PhysicsWorld \<Rightarrow> 64 word \<Rightarrow> ref option" where
  "GetBody w bodyID = bodies w bodyID"

definition SetGravity :: "PhysicsWorld \<Rightarrow> Vector2 \<Rightarrow> PhysicsWorld" where
  "SetGravity w g = w\<lparr>gravity := g\<rparr>"

text \<open>
  \<open>Update\<close> and \<open>checkCollisions\<close> each range over the body map. The order \<open>ord\<close> in
  which a range yields the keys is an argument; \<open>range_bodies\<close> is the series of pointers
  the range then visits.
\<close>

definition range_bodies :: "PhysicsWorld \<Rightarrow> 64 word list \<Rightarrow> ref list" where
  "range_bodies w ord = List.map_filter (bodies w) ord"

text \<open>The body of the first loop of \<open>Update\<close>, on one body and on the store.\<close>

definition integrate :: "Vector2 \<Rightarrow> real \<Rightarrow> RigidBody \<Rightarrow> RigidBody" where
  "integrate g deltaTime body =
     (if \<not> BodyActive body then body
      else
        (let b1 = body\<lparr>Force := Add (Force body) (Mul g (Mass body))\<rparr>;
             b2 = b1\<lparr>Velocity :=
                     Add (Velocity b1) (Mul (Mul (Force b1) deltaTime) (InverseMass b1))\<rparr>;
             b3 = b2\<lparr>Position := Add (Position b2) (Mul (Velocity b2) deltaTime)\<rparr>
         in b3\<lparr>Force := \<lparr>X = 0, Y = 0\<rparr>\<rparr>))"

definition integrate_at :: "Vector2 \<Rightarrow> real \<Rightarrow> ref \<Rightarrow> heap \<Rightarrow> heap" where
  "integrate_at g deltaTime body h = h(body := integrate g deltaTime (h body))"

definition integrate_all :: "heap \<Rightarrow> PhysicsWorld \<Rightarrow> real \<Rightarrow> 64 word list \<Rightarrow> heap" where
  "integrate_all h w deltaTime ord =
     fold (integrate_at (gravity w) deltaTime) (range_bodies w ord) h"

definition checkCollision :: "RigidBody \<Rightarrow> RigidBody \<Rightarrow> bool" where
  "checkCollision body1 body2 =
     (let left1 = X (Position body1) - Width body1 / 2;
          right1 = X (Position body1) + Width body1 / 2;
          top1 = Y (Position body1) + Height body1 / 2;
          bottom1 = Y (Position body1) - Height body1 / 2;
          left2 = X (Position body2) - Width body2 / 2;
          right2 = X (Position body2) + Width body2 / 2;
          top2 = Y (Position body2) + Height body2 / 2;
          bottom2 = Y (Position body2) - Height body2 / 2
      in \<not> (right1 < left2 \<or> left1 > right2 \<or> bottom1 > top2 \<or> top1 < bottom2))"

text \<open>
  The locals of \<open>resolveCollision\<close>: \<open>separation\<close> and \<open>distance\<close> as they stand after
  the \<open>if distance == 0\<close> block, then \<open>normal\<close> and \<open>overlap\<close>.
\<close>

definition separation_distance :: "RigidBody \<Rightarrow> RigidBody \<Rightarrow> Vector2 \<times> real" where
  "separation_distance body1 body2 =
     (let separation = Sub (Position body2) (Position body1);
          distance = Length separation
      in if distance = 0 then (\<lparr>X = 1, Y = 0\<rparr>, 1) else (separation, distance))"

definition collision_normal :: "RigidBody \<Rightarrow> RigidBody \<Rightarrow> Vector2" where
  "collision_normal body1 body2 =
     (let (separation, distance) = separation_distance body1 body2 in Div separation distance)"

definition collision_overlap :: "RigidBody \<Rightarrow> RigidBody \<Rightarrow> real" where
  "collision_overlap body1 body2 =
     (let (separation, distance) = separation_distance body1 body2
      in (Width body1 + Width body2) / 2 - distance)"

text \<open>
  The two position writes go through the pointers one after the other, so the second
  reads the store the first has left.
\<close>

definition resolveCollision :: "heap \<Rightarrow> ref \<Rightarrow> ref \<Rightarrow> heap" where
  "resolveCollision h body1 body2 =
     (let normal = collision_normal (h body1) (h body2);
          overlap = collision_overlap (h body1) (h body2)
      in if overlap > 0
         then
           (let separationVector = Mul normal (overlap / 2);
                h1 = (if InverseMass (h body1) > 0
                      then h(body1 := (h body1)
                             \<lparr>Position := Sub (Position (h body1)) separationVector\<rparr>)
                      else h);
                h2 = (if InverseMass (h1 body2) > 0
                      then h1(body2 := (h1 body2)
                              \<lparr>Position := Add (Position (h1 body2)) separationVector\<rparr>)
                      else h1)
            in h2)
         else h)"

text \<open>
  The nested loops of \<open>checkCollisions\<close> over the slice of active bodies:
  \<open>collide_with\<close> is the inner loop (\<open>j\<close> from \<open>i + 1\<close>) for one \<open>bodies[i]\<close>,
  \<open>collide_pairs\<close> the outer one.
\<close>

fun collide_with :: "heap \<Rightarrow> ref \<Rightarrow> ref list \<Rightarrow> heap" where
  "collide_with h body_i [] = h"
| "collide_with h body_i (body_j # rest) =
     collide_with
       (if checkCollision (h body_i) (h body_j) then resolveCollision h body_i body_j else h)
       body_i rest"

fun collide_pairs :: "heap \<Rightarrow> ref list \<Rightarrow> heap" where
  "collide_pairs h [] = h"
| "collide_pairs h (body_i # rest) = collide_pairs (collide_with h body_i rest) rest"

definition checkCollisions :: "heap \<Rightarrow> PhysicsWorld \<Rightarrow> 64 word list \<Rightarrow> heap" where
  "checkCollisions h w ord =
     (let bodies = filter (\<lambda>body. BodyActive (h body)) (range_bodies w ord)
      in collide_pairs h bodies)"

text \<open>
  \<open>physics.World.Update\<close>: \<open>ord1\<close> is the key order of the integration loop, \<open>ord2\<close>
  that of the loop collecting the active bodies.
\<close>

definition Update :: "heap \<Rightarrow> PhysicsWorld \<Rightarrow> real \<Rightarrow> 64 word list \<Rightarrow> 64 word list \<Rightarrow> heap" where
  "Update h w deltaTime ord1 ord2 = checkCollisions (integrate_all h w deltaTime ord1) w ord2"

text \<open>Bodies and worlds for the examples.\<close>

definition kinematic_body :: RigidBody where
  "kinematic_body = (NewRigidBody 1 \<lparr>X = 0, Y = 0\<rparr> 1 1 0)\<lparr>Velocity := \<lparr>X = 1, Y = 0\<rparr>\<rparr>"

text \<open>
  An immovable body of mass 0 at the origin and, above it, a body of mass 1 that falls
  into it within one step of length 1.
\<close>

definition anchor_heap :: heap where
  "anchor_heap = (\<lambda>r. NewRigidBody 2 \<lparr>X = 0, Y = 781 / 100\<rparr> 6 6 1)
                   (0 := NewRigidBody 1 \<lparr>X = 0, Y = 0\<rparr> 6 6 0)"

definition anchor_world :: PhysicsWorld where
  "anchor_world = AddBody anchor_heap (AddBody anchor_heap NewPhysicsWorld 0) 1"

definition sleeping_body :: RigidBody where
  "sleeping_body = (NewRigidBody 1 \<lparr>X = 0, Y = 0\<rparr> 1 1 1)\<lparr>BodyActive := False\<rparr>"

definition sleeping_heap :: heap where
  "sleeping_heap = (\<lambda>r. NewRigidBody 2 \<lparr>X = 0, Y = 0\<rparr> 4 4 1)(0 := sleeping_body)"

definition sleeping_world :: PhysicsWorld where
  "sleeping_world = AddBody sleeping_heap (AddBody sleeping_heap NewPhysicsWorld 0) 1"

definition coincident_body1 :: RigidBody where
  "coincident_body1 = NewRigidBody 1 \<lparr>X = 0, Y = 0\<rparr> 1 1 1"

definition coincident_body2 :: RigidBody where
  "coincident_body2 = NewRigidBody 2 \<lparr>X = 0, Y = 0\<rparr> 1 1 1"

section \<open>Component overwrite\<close>

lemma AddComponent_entity_exists:
  "entities w entityID \<noteq> None \<Longrightarrow> entities (AddComponent w entityID c) entityID \<noteq> None"
  by (auto simp: AddComponent_def Let_def)

lemma GetComponent_AddComponent:
  "entities w entityID \<noteq> None \<Longrightarrow>
   GetComponent (AddComponent w entityID c) entityID (GetType c) = Some c"
  by (auto simp: AddComponent_def GetComponent_def Let_def)

lemma fold_AddComponent_entity_exists:
  "entities w entityID \<noteq> None \<Longrightarrow>
   entities (fold (\<lambda>c w'. AddComponent w' entityID c) cs w) entityID \<noteq> None"
proof (induction cs arbitrary: w)
  case Nil
  then show ?case by simp
next
  case (Cons c cs)
  have "entities (AddComponent w entityID c) entityID \<noteq> None"
    using Cons.prems by (rule AddComponent_entity_exists)
  then have "entities (fold (\<lambda>c w'. AddComponent w' entityID c) cs
               (AddComponent w entityID c)) entityID \<noteq> None"
    by (rule Cons.IH)
  then show ?case by simp
qed

text \<open>
  C3. For an existing entity and a type tag, after any non-empty series of
  \<open>AddComponent\<close> calls for that entity with components of that tag, \<open>GetComponent\<close>
  for the entity and the tag returns the component of the most recent call.
\<close>

theorem C3_GetComponent_returns_latest:
  assumes "entities w entityID \<noteq> None"
    and "cs \<noteq> []"
    and "\<forall>c \<in> set cs. GetType c = componentType"
  shows "GetComponent (fold (\<lambda>c w'. AddComponent w' entityID c) cs w) entityID componentType
         = Some (last cs)"
proof -
  from assms(2) obtain cs' c where cs: "cs = cs' @ [c]"
    by (cases cs rule: rev_cases) auto
  let ?w = "fold (\<lambda>c w'. AddComponent w' entityID c) cs' w"
  have ex: "entities ?w entityID \<noteq> None"
    using assms(1) by (rule fold_AddComponent_entity_exists)
  have ty: "GetType c = componentType"
    using assms(3) cs by simp
  have "GetComponent (AddComponent ?w entityID c) entityID (GetType c) = Some c"
    using ex by (rule GetComponent_AddComponent)
  then show ?thesis
    using cs ty by simp
qed

theorem C3_witness:
  "GetComponent
     (fold (\<lambda>c w'. AddComponent w' 0 c) [TagComponent [''a''], TagComponent [''b'']]
        (snd (CreateEntity NewWorld))) 0 ''tag''
   = Some (TagComponent [''b''])"
  using C3_GetComponent_returns_latest
    [of "snd (CreateEntity NewWorld)" 0 "[TagComponent [''a''], TagComponent [''b'']]" "''tag''"]
  by (simp add: CreateEntity_def NewWorld_def Let_def)

section \<open>Querying entities by component type\<close>

lemma hasComponent_iff:
  "hasComponent w t entityID \<longleftrightarrow>
     (\<exists>entity. entities w entityID = Some entity \<and> t \<in> dom (Components entity))"
  by (auto simp: hasComponent_def split: option.splits)

text \<open>
  C4. Whatever the global per-type list \<open>components\<close> holds (\<open>g\<close> is any
  replacement for it), \<open>GetEntitiesWithComponent\<close> returns, each once, exactly the IDs
  of the stored entities whose own component map has the key \<open>t\<close>. \<open>ord\<close> is the
  order in which the range over the entity map yields its keys.
\<close>

theorem C4_GetEntitiesWithComponent_exact:
  assumes "distinct ord" and "set ord = dom (entities w)"
  shows "set (GetEntitiesWithComponent w ord t) =
           {entityID. \<exists>entity. entities w entityID = Some entity \<and> t \<in> dom (Components entity)}
       \<and> distinct (GetEntitiesWithComponent w ord t)
       \<and> GetEntitiesWithComponent (w\<lparr>components := g\<rparr>) ord t = GetEntitiesWithComponent w ord t"
proof -
  have "set (GetEntitiesWithComponent w ord t) =
           {entityID. \<exists>entity. entities w entityID = Some entity \<and> t \<in> dom (Components entity)}"
    using assms(2) by (auto simp: GetEntitiesWithComponent_def hasComponent_iff)
  moreover have "distinct (GetEntitiesWithComponent w ord t)"
    using assms(1) by (simp add: GetEntitiesWithComponent_def)
  moreover have "hasComponent (w\<lparr>components := g\<rparr>) t = hasComponent w t"
    by (simp add: fun_eq_iff hasComponent_def)
  then have "GetEntitiesWithComponent (w\<lparr>components := g\<rparr>) ord t = GetEntitiesWithComponent w ord t"
    by (simp add: GetEntitiesWithComponent_def)
  ultimately show ?thesis by blast
qed

theorem C4_witness:
  "distinct [1, 0 :: EntityID]
   \<and> set [1, 0] = dom (entities (snd (calls NewWorld
         [OpCreateEntity, OpCreateEntity, OpAddComponent 1 (TagComponent [])])))
   \<and> GetEntitiesWithComponent (snd (calls NewWorld
         [OpCreateEntity, OpCreateEntity, OpAddComponent 1 (TagComponent [])])) [1, 0] ''tag'' = [1]
   \<and> GetEntitiesWithComponent ((snd (calls NewWorld
         [OpCreateEntity, OpCreateEntity, OpAddComponent 1 (TagComponent [])]))
           \<lparr>components := Map.empty\<rparr>) [1, 0] ''tag'' = [1]"
  using C4_GetEntitiesWithComponent_exact
    [of "[1, 0]" "snd (calls NewWorld
         [OpCreateEntity, OpCreateEntity, OpAddComponent 1 (TagComponent [])])" "''tag''" Map.empty]
  by (auto simp: NewWorld_def CreateEntity_def AddComponent_def Let_def
      GetEntitiesWithComponent_def hasComponent_def)

section \<open>Removing a system\<close>

lemma RemoveSystem_loop_eq:
  "i \<le> length ss \<Longrightarrow>
   RemoveSystem_loop n ss i =
     take i ss @ takeWhile (\<lambda>s. GetName s \<noteq> n) (drop i ss)
       @ drop 1 (dropWhile (\<lambda>s. GetName s \<noteq> n) (drop i ss))"
proof (induction n ss i rule: RemoveSystem_loop.induct)
  case (1 n ss i)
  show ?case
  proof (cases "i < length ss")
    case False
    then show ?thesis by (simp add: RemoveSystem_loop.simps [of n ss i])
  next
    case lt: True
    then have d: "drop i ss = ss ! i # drop (Suc i) ss"
      by (simp add: Cons_nth_drop_Suc)
    show ?thesis
    proof (cases "GetName (ss ! i) = n")
      case True
      then show ?thesis using lt d by (simp add: RemoveSystem_loop.simps [of n ss i])
    next
      case False
      have "RemoveSystem_loop n ss i = RemoveSystem_loop n ss (i + 1)"
        using lt False by (simp add: RemoveSystem_loop.simps [of n ss i])
      also have "\<dots> = take (i + 1) ss @ takeWhile (\<lambda>s. GetName s \<noteq> n) (drop (i + 1) ss)
       @ drop 1 (dropWhile (\<lambda>s. GetName s \<noteq> n) (drop (i + 1) ss))"
        using "1.IH" lt False by simp
      finally show ?thesis using lt False d by (simp add: take_Suc_conv_app_nth)
    qed
  qed
qed

text \<open>
  C8 (as amended). \<open>RemoveSystem\<close> deletes the first registered system that reports
  the name and no other: the systems before it and after it stay, in their order. The
  entity store is not touched, and when no registered system reports the name the world
  is unchanged.
\<close>

theorem C8_RemoveSystem_removes_first_match:
  "systems (RemoveSystem w n) =
       takeWhile (\<lambda>s. GetName s \<noteq> n) (systems w)
         @ drop 1 (dropWhile (\<lambda>s. GetName s \<noteq> n) (systems w))
   \<and> entities (RemoveSystem w n) = entities w
   \<and> components (RemoveSystem w n) = components w
   \<and> nextEntityID (RemoveSystem w n) = nextEntityID w
   \<and> (n \<notin> GetName ` set (systems w) \<longrightarrow> RemoveSystem w n = w)"
proof -
  have sys: "systems (RemoveSystem w n) =
       takeWhile (\<lambda>s. GetName s \<noteq> n) (systems w)
         @ drop 1 (dropWhile (\<lambda>s. GetName s \<noteq> n) (systems w))"
    using RemoveSystem_loop_eq [of 0 "systems w" n] by (simp add: RemoveSystem_def)
  have "RemoveSystem w n = w" if "n \<notin> GetName ` set (systems w)"
  proof -
    have "\<forall>s \<in> set (systems w). GetName s \<noteq> n"
      using that by auto
    then have tw: "takeWhile (\<lambda>s. GetName s \<noteq> n) (systems w) = systems w"
      and dw: "dropWhile (\<lambda>s. GetName s \<noteq> n) (systems w) = []"
      by simp_all
    have "RemoveSystem_loop n (systems w) 0 = systems w"
      by (simp add: RemoveSystem_loop_eq [of 0 "systems w" n] tw dw)
    then show ?thesis by (simp add: RemoveSystem_def)
  qed
  then show ?thesis using sys by (simp add: RemoveSystem_def)
qed

text \<open>
  Two systems are registered. Removing a third name changes nothing; removing the first
  name leaves the second system.
\<close>

theorem C8_witness:
  "RemoveSystem (AddSystem (AddSystem NewWorld (System ''render'' 0)) (System ''physics'' 1)) ''audio''
     = AddSystem (AddSystem NewWorld (System ''render'' 0)) (System ''physics'' 1)
   \<and> systems (RemoveSystem
         (AddSystem (AddSystem NewWorld (System ''render'' 0)) (System ''physics'' 1)) ''render'')
     = [System ''physics'' 1]"
  using C8_RemoveSystem_removes_first_match
    [of "AddSystem (AddSystem NewWorld (System ''render'' 0)) (System ''physics'' 1)" "''audio''"]
    C8_RemoveSystem_removes_first_match
    [of "AddSystem (AddSystem NewWorld (System ''render'' 0)) (System ''physics'' 1)" "''render''"]
  by (simp add: AddSystem_def NewWorld_def)

text \<open>
  Two systems report the name \<open>a\<close>. After \<open>RemoveSystem\<close> the second of them is
  still registered, so not every system of that name is removed.
\<close>

theorem C8_counterexample:
  "systems (RemoveSystem (AddSystem (AddSystem NewWorld (System ''a'' 0)) (System ''a'' 1)) ''a'')
     = [System ''a'' 1]"
  by (simp add: RemoveSystem_def AddSystem_def NewWorld_def RemoveSystem_loop.simps)

section \<open>The Active flag of an entity\<close>

lemma Entity_forget_eq:
  "(e1::Entity)\<lparr>Active := True\<rparr> = e2\<lparr>Active := True\<rparr> \<longleftrightarrow> ID e1 = ID e2 \<and> Components e1 = Components e2"
  by (cases e1; cases e2) simp

lemma forget_Active_eq_iff:
  "forget_Active w1 = forget_Active w2 \<longleftrightarrow>
     components w1 = components w2 \<and> systems w1 = systems w2 \<and> nextEntityID w1 = nextEntityID w2
     \<and> (\<forall>entityID. rel_option (\<lambda>e1 e2. ID e1 = ID e2 \<and> Components e1 = Components e2)
            (entities w1 entityID) (entities w2 entityID))"
  (is "?L \<longleftrightarrow> ?R")
proof
  assume L: ?L
  then have "entities (forget_Active w1) = entities (forget_Active w2)" by simp
  then have e: "map_option (\<lambda>e. e\<lparr>Active := True\<rparr>) (entities w1 i)
      = map_option (\<lambda>e. e\<lparr>Active := True\<rparr>) (entities w2 i)" for i
    by (simp add: forget_Active_def fun_eq_iff)
  have "rel_option (\<lambda>e1 e2. ID e1 = ID e2 \<and> Components e1 = Components e2)
            (entities w1 i) (entities w2 i)" for i
    using e [of i]
    by (cases "entities w1 i"; cases "entities w2 i")
       (auto simp: Entity_forget_eq)
  moreover have "components w1 = components w2" "systems w1 = systems w2" "nextEntityID w1 = nextEntityID w2"
    using arg_cong [OF L, of components] arg_cong [OF L, of systems] arg_cong [OF L, of nextEntityID]
    by (simp_all add: forget_Active_def)
  ultimately show ?R by blast
next
  assume R: ?R
  have "map_option (\<lambda>e. e\<lparr>Active := True\<rparr>) (entities w1 i)
      = map_option (\<lambda>e. e\<lparr>Active := True\<rparr>) (entities w2 i)" for i
  proof -
    from R have "rel_option (\<lambda>e1 e2. ID e1 = ID e2 \<and> Components e1 = Components e2)
            (entities w1 i) (entities w2 i)" by blast
    then show ?thesis
      by (cases "entities w1 i"; cases "entities w2 i") (auto simp: Entity_forget_eq)
  qed
  then show ?L using R by (simp add: forget_Active_def fun_eq_iff World.equality)
qed

lemma fold_removeComponentFromList:
  "fold (\<lambda>t w'. removeComponentFromList w' entityID t) ks w =
     w\<lparr>components :=
         fold (\<lambda>t m. case m t of None \<Rightarrow> m | Some cs \<Rightarrow> m(t \<mapsto> remove_first_non_nil cs))
           ks (components w)\<rparr>"
  by (induction ks arbitrary: w) (auto simp: removeComponentFromList_def split: option.splits)

lemma forget_Active_rel:
  assumes "forget_Active w1 = forget_Active w2"
  shows "rel_option (\<lambda>e1 e2. ID e1 = ID e2 \<and> Components e1 = Components e2)
            (entities w1 i) (entities w2 i)"
  using assms by (simp add: forget_Active_eq_iff)

lemma forget_Active_cases [consumes 1, case_names absent present]:
  assumes "forget_Active w1 = forget_Active w2"
  obtains (absent) "entities w1 i = None" "entities w2 i = None"
  | (present) e1 e2 where "entities w1 i = Some e1" "entities w2 i = Some e2"
      "ID e1 = ID e2" "Components e1 = Components e2"
  using forget_Active_rel [OF assms, of i]
  by (cases "entities w1 i"; cases "entities w2 i") auto

lemma forget_AddComponent:
  assumes "forget_Active w1 = forget_Active w2"
  shows "forget_Active (AddComponent w1 entityID c) = forget_Active (AddComponent w2 entityID c)"
  using assms
proof (cases rule: forget_Active_cases [where i = entityID])
  case absent
  then show ?thesis using assms by (simp add: AddComponent_def)
next
  case (present e1 e2)
  have "components w1 = components w2" "systems w1 = systems w2" "nextEntityID w1 = nextEntityID w2"
    using assms by (simp_all add: forget_Active_eq_iff)
  moreover have "rel_option (\<lambda>e1 e2. ID e1 = ID e2 \<and> Components e1 = Components e2)
            (entities (AddComponent w1 entityID c) i) (entities (AddComponent w2 entityID c) i)" for i
    using forget_Active_rel [OF assms, of i] present
    by (simp add: AddComponent_def Let_def)
  ultimately show ?thesis
    using present by (simp add: forget_Active_eq_iff) (simp add: AddComponent_def Let_def)
qed

lemma forget_RemoveComponent:
  assumes "forget_Active w1 = forget_Active w2"
  shows "forget_Active (RemoveComponent w1 entityID t) = forget_Active (RemoveComponent w2 entityID t)"
  using assms
proof (cases rule: forget_Active_cases [where i = entityID])
  case absent
  then show ?thesis using assms by (simp add: RemoveComponent_def)
next
  case (present e1 e2)
  have eq: "components w1 = components w2" "systems w1 = systems w2" "nextEntityID w1 = nextEntityID w2"
    using assms by (simp_all add: forget_Active_eq_iff)
  show ?thesis
  proof (cases "Components e1 t")
    case None
    then show ?thesis using present assms by (simp add: RemoveComponent_def)
  next
    case (Some c)
    have "rel_option (\<lambda>e1 e2. ID e1 = ID e2 \<and> Components e1 = Components e2)
            (entities (RemoveComponent w1 entityID t) i) (entities (RemoveComponent w2 entityID t) i)" for i
      using forget_Active_rel [OF assms, of i] present Some
      by (simp add: RemoveComponent_def Let_def removeComponentFromList_def split: option.splits)
    then show ?thesis
      using present Some eq
      by (simp add: forget_Active_eq_iff)
         (simp add: RemoveComponent_def Let_def removeComponentFromList_def split: option.splits)
  qed
qed

lemma forget_DestroyEntity:
  assumes "forget_Active w1 = forget_Active w2"
  shows "forget_Active (DestroyEntity w1 entityID ks) = forget_Active (DestroyEntity w2 entityID ks)"
  using assms
proof (cases rule: forget_Active_cases [where i = entityID])
  case absent
  then show ?thesis using assms by (simp add: DestroyEntity_def)
next
  case (present e1 e2)
  have eq: "components w1 = components w2" "systems w1 = systems w2" "nextEntityID w1 = nextEntityID w2"
    using assms by (simp_all add: forget_Active_eq_iff)
  have "rel_option (\<lambda>e1 e2. ID e1 = ID e2 \<and> Components e1 = Components e2)
            (entities (DestroyEntity w1 entityID ks) i) (entities (DestroyEntity w2 entityID ks) i)" for i
    using forget_Active_rel [OF assms, of i] present
    by (simp add: DestroyEntity_def Let_def fold_removeComponentFromList)
  then show ?thesis
    using present eq
    by (simp add: forget_Active_eq_iff)
       (simp add: DestroyEntity_def Let_def fold_removeComponentFromList)
qed

lemma forget_GetComponent:
  assumes "forget_Active w1 = forget_Active w2"
  shows "GetComponent w1 entityID t = GetComponent w2 entityID t"
  using assms by (cases rule: forget_Active_cases [where i = entityID]) (simp_all add: GetComponent_def)

lemma forget_hasComponent:
  assumes "forget_Active w1 = forget_Active w2"
  shows "hasComponent w1 t entityID = hasComponent w2 t entityID"
  using assms by (cases rule: forget_Active_cases [where i = entityID]) (simp_all add: hasComponent_def)

lemma forget_dom:
  assumes "forget_Active w1 = forget_Active w2"
  shows "dom (entities w1) = dom (entities w2)"
proof -
  have "(entities w1 i = None) = (entities w2 i = None)" for i
    using assms by (cases rule: forget_Active_cases [where i = i]) simp_all
  then show ?thesis by (auto simp: dom_def)
qed

text \<open>
  C10. Two worlds that differ in the \<open>Active\<close> flags of their entities only give the
  same results of \<open>GetComponent\<close>, \<open>GetEntitiesWithComponent\<close> and \<open>GetEntityCount\<close>,
  and \<open>AddComponent\<close>, \<open>RemoveComponent\<close> and \<open>DestroyEntity\<close> take them to worlds
  that again differ in those flags only. An entity whose flag is cleared is still found
  by \<open>GetComponent\<close> and listed by \<open>GetEntitiesWithComponent\<close>.
\<close>

theorem C10_Active_flag_is_never_read:
  assumes "forget_Active w1 = forget_Active w2"
  shows "GetComponent w1 entityID t = GetComponent w2 entityID t
       \<and> GetEntitiesWithComponent w1 ord t = GetEntitiesWithComponent w2 ord t
       \<and> GetEntityCount w1 = GetEntityCount w2
       \<and> forget_Active (AddComponent w1 entityID c) = forget_Active (AddComponent w2 entityID c)
       \<and> forget_Active (RemoveComponent w1 entityID t) = forget_Active (RemoveComponent w2 entityID t)
       \<and> forget_Active (DestroyEntity w1 entityID ks) = forget_Active (DestroyEntity w2 entityID ks)
       \<and> (\<forall>e c. entities w1 entityID = Some e \<and> \<not> Active e \<and> Components e t = Some c \<longrightarrow>
             GetComponent w1 entityID t = Some c
             \<and> (entityID \<in> set ord \<longrightarrow> entityID \<in> set (GetEntitiesWithComponent w1 ord t)))"
proof -
  have "hasComponent w1 t = hasComponent w2 t"
    using forget_hasComponent [OF assms] by (simp add: fun_eq_iff)
  then have "GetEntitiesWithComponent w1 ord t = GetEntitiesWithComponent w2 ord t"
    by (simp add: GetEntitiesWithComponent_def)
  moreover have "GetEntityCount w1 = GetEntityCount w2"
    using forget_dom [OF assms] by (simp add: GetEntityCount_def)
  moreover have "\<forall>e c. entities w1 entityID = Some e \<and> \<not> Active e \<and> Components e t = Some c \<longrightarrow>
             GetComponent w1 entityID t = Some c
             \<and> (entityID \<in> set ord \<longrightarrow> entityID \<in> set (GetEntitiesWithComponent w1 ord t))"
    by (simp add: GetComponent_def GetEntitiesWithComponent_def hasComponent_def)
  ultimately show ?thesis
    using forget_GetComponent [OF assms] forget_AddComponent [OF assms]
      forget_RemoveComponent [OF assms] forget_DestroyEntity [OF assms]
    by blast
qed

text \<open>
  The tagged entity of \<open>deactivated_world\<close> has its flag cleared and is found and listed
  as in \<open>tagged_world\<close>.
\<close>

theorem C10_witness:
  "forget_Active tagged_world = forget_Active deactivated_world
   \<and> GetComponent deactivated_world 0 ''tag'' = Some (TagComponent [''player''])
   \<and> GetEntitiesWithComponent deactivated_world [0] ''tag'' = [0]
   \<and> GetEntityCount deactivated_world = 1"
proof -
  have eq: "forget_Active tagged_world = forget_Active deactivated_world"
    by (simp add: forget_Active_def tagged_world_def deactivated_world_def fun_eq_iff
        NewWorld_def CreateEntity_def AddComponent_def Let_def)
  have "GetComponent tagged_world 0 ''tag'' = Some (TagComponent [''player''])"
    and "GetEntitiesWithComponent tagged_world [0] ''tag'' = [0]"
    and "GetEntityCount tagged_world = 1"
    by (simp_all add: tagged_world_def NewWorld_def CreateEntity_def AddComponent_def Let_def
        GetComponent_def GetEntitiesWithComponent_def hasComponent_def GetEntityCount_def)
  with eq C10_Active_flag_is_never_read [OF eq, of 0 "''tag''" "[0]"]
  show ?thesis by simp
qed

section \<open>Entity IDs along a series of calls\<close>

lemma removeComponentFromList_fields [simp]:
  "entities (removeComponentFromList w entityID t) = entities w"
  "nextEntityID (removeComponentFromList w entityID t) = nextEntityID w"
  "systems (removeComponentFromList w entityID t) = systems w"
  by (simp_all add: removeComponentFromList_def split: option.splits)

lemma DestroyEntity_fields [simp]:
  "entities (DestroyEntity w entityID ks) = (entities w)(entityID := None)"
  "nextEntityID (DestroyEntity w entityID ks) = nextEntityID w"
  "systems (DestroyEntity w entityID ks) = systems w"
  by (auto simp: DestroyEntity_def Let_def fold_removeComponentFromList split: option.splits)

lemma AddComponent_fields [simp]:
  "dom (entities (AddComponent w entityID c)) = dom (entities w)"
  "nextEntityID (AddComponent w entityID c) = nextEntityID w"
  "systems (AddComponent w entityID c) = systems w"
  by (auto simp: AddComponent_def Let_def split: option.splits)

lemma RemoveComponent_fields [simp]:
  "dom (entities (RemoveComponent w entityID t)) = dom (entities w)"
  "nextEntityID (RemoveComponent w entityID t) = nextEntityID w"
  "systems (RemoveComponent w entityID t) = systems w"
  by (auto simp: RemoveComponent_def Let_def split: option.splits)

lemma CreateEntity_fields [simp]:
  "fst (CreateEntity w) = nextEntityID w"
  "nextEntityID (snd (CreateEntity w)) = nextEntityID w + 1"
  "entities (snd (CreateEntity w)) =
     (entities w)(nextEntityID w \<mapsto> \<lparr>ID = nextEntityID w, Components = Map.empty, Active = True\<rparr>)"
  "systems (snd (CreateEntity w)) = systems w"
  "components (snd (CreateEntity w)) = components w"
  by (simp_all add: CreateEntity_def Let_def)

lemma System_fields [simp]:
  "entities (AddSystem w s) = entities w"
  "nextEntityID (AddSystem w s) = nextEntityID w"
  "entities (RemoveSystem w n) = entities w"
  "nextEntityID (RemoveSystem w n) = nextEntityID w"
  by (simp_all add: AddSystem_def RemoveSystem_def)

lemma call_nextEntityID:
  "nextEntityID (snd (call w c)) = nextEntityID w + of_nat (creations [c])"
  by (cases c) (simp_all add: creations_def)

lemma call_ids:
  "fst (call w c) = map (\<lambda>k. nextEntityID w + of_nat k) [0..<creations [c]]"
  by (cases c) (simp_all add: creations_def)

lemma call_dom:
  "dom (entities (snd (call w c))) \<subseteq> dom (entities w) \<union> set (fst (call w c))"
  by (cases c) auto

lemma creations_Cons: "creations (c # cs) = creations [c] + creations cs"
  by (simp add: creations_def)

lemma creations_append: "creations (cs @ ds) = creations cs + creations ds"
  by (simp add: creations_def)

lemma creations_replicate: "creations (replicate n OpCreateEntity) = n"
  by (induction n) (simp_all add: creations_def)

lemma calls_nextEntityID:
  "nextEntityID (snd (calls w cs)) = nextEntityID w + of_nat (creations cs)"
proof (induction cs arbitrary: w)
  case Nil
  then show ?case by (simp add: creations_def)
next
  case (Cons c cs)
  show ?case
    by (simp add: Cons.IH call_nextEntityID creations_Cons [of c cs])
qed

lemma calls_ids:
  "fst (calls w cs) = map (\<lambda>k. nextEntityID w + of_nat k) [0..<creations cs]"
proof (induction cs arbitrary: w)
  case Nil
  then show ?case by (simp add: creations_def)
next
  case (Cons c cs)
  let ?a = "creations [c]" and ?b = "creations cs"
  let ?f = "\<lambda>k. nextEntityID w + of_nat k"
  have split: "[0..<?a + ?b] = [0..<?a] @ [?a..<?a + ?b]"
    by (rule upt_add_eq_append) simp
  have shift: "[?a..<?a + ?b] = map (\<lambda>i. i + ?a) [0..<?b]"
    by (simp only: map_add_upt add.commute [of ?a ?b])
  have "fst (calls w (c # cs)) = fst (call w c) @ fst (calls (snd (call w c)) cs)"
    by simp
  also have "fst (call w c) = map ?f [0..<?a]"
    by (rule call_ids)
  also have "fst (calls (snd (call w c)) cs)
      = map (\<lambda>k. nextEntityID (snd (call w c)) + of_nat k) [0..<?b]"
    by (rule Cons.IH)
  also have "\<dots> = map ?f (map (\<lambda>i. i + ?a) [0..<?b])"
    by (simp add: call_nextEntityID add.commute add.left_commute)
  finally have "fst (calls w (c # cs)) = map ?f ([0..<?a] @ map (\<lambda>i. i + ?a) [0..<?b])"
    by simp
  then show ?case
    by (simp only: creations_Cons [of c cs] split shift)
qed

lemma calls_dom:
  "dom (entities (snd (calls w cs))) \<subseteq> dom (entities w) \<union> set (fst (calls w cs))"
proof (induction cs arbitrary: w)
  case Nil
  then show ?case by simp
next
  case (Cons c cs)
  have 1: "dom (entities (snd (calls (snd (call w c)) cs)))
      \<subseteq> dom (entities (snd (call w c))) \<union> set (fst (calls (snd (call w c)) cs))"
    by (rule Cons.IH)
  have 2: "dom (entities (snd (call w c))) \<subseteq> dom (entities w) \<union> set (fst (call w c))"
    by (rule call_dom)
  have 3: "snd (calls w (c # cs)) = snd (calls (snd (call w c)) cs)"
    and 4: "set (fst (calls w (c # cs))) = set (fst (call w c)) \<union> set (fst (calls (snd (call w c)) cs))"
    by simp_all
  show ?case
    unfolding 3 4 using 1 2 by blast
qed

lemma calls_append:
  "snd (calls w (cs @ ds)) = snd (calls (snd (calls w cs)) ds)"
  by (induction cs arbitrary: w) simp_all

lemma of_nat_less_64:
  "i < j \<Longrightarrow> j < 2 ^ 64 \<Longrightarrow> (of_nat i :: 64 word) < of_nat j"
  by (simp add: word_of_nat_less_iff take_bit_nat_eq_self)

lemma of_nat_neq_64:
  "i < j \<Longrightarrow> j < 2 ^ 64 \<Longrightarrow> (of_nat i :: 64 word) \<noteq> of_nat j"
  using of_nat_less_64 [of i j] by auto

lemma sorted_ids:
  "n \<le> 2 ^ 64 \<Longrightarrow> sorted_wrt (<) (map (of_nat :: nat \<Rightarrow> 64 word) [0..<n])"
  by (simp add: sorted_wrt_map sorted_wrt_iff_nth_less of_nat_less_64)

text \<open>
  C2 (as amended). Along any series of calls on a new world with at most \<open>2 ^ 64\<close>
  calls of \<open>CreateEntity\<close>, the \<open>k\<close>-th of them returns \<open>k - 1\<close>: the IDs returned
  are strictly increasing and none is returned twice, whatever is destroyed in between.
\<close>

theorem C2_ids_increase_until_wrap:
  assumes "creations cs \<le> 2 ^ 64"
  shows "fst (calls NewWorld cs) = map of_nat [0..<creations cs]
       \<and> sorted_wrt (<) (fst (calls NewWorld cs))
       \<and> distinct (fst (calls NewWorld cs))"
proof -
  have ids: "fst (calls NewWorld cs) = map of_nat [0..<creations cs]"
    by (simp add: calls_ids NewWorld_def)
  have s: "sorted_wrt (<) (fst (calls NewWorld cs))"
    unfolding ids using assms by (rule sorted_ids)
  then have "distinct (fst (calls NewWorld cs))"
    by (simp add: strict_sorted_iff)
  with ids s show ?thesis by blast
qed

text \<open>
  Three creations with a destruction in between return 0, 1 and 2.
\<close>

theorem C2_witness:
  "fst (calls NewWorld [OpCreateEntity, OpCreateEntity, OpDestroyEntity 0 [], OpCreateEntity])
     = [0, 1, 2]"
  using C2_ids_increase_until_wrap
    [of "[OpCreateEntity, OpCreateEntity, OpDestroyEntity 0 [], OpCreateEntity]"]
  by (simp add: creations_def upt_rec)

text \<open>
  The counter is a \<open>uint64\<close>: of \<open>2 ^ 64 + 1\<close> successive \<open>CreateEntity\<close> calls on
  a new world, the first and the last both return 0.
\<close>

theorem C2_counterexample:
  "\<not> distinct (fst (calls NewWorld (replicate (Suc (2 ^ 64)) OpCreateEntity)))"
proof
  let ?f = "\<lambda>k. nextEntityID NewWorld + (of_nat k :: 64 word)"
  assume "distinct (fst (calls NewWorld (replicate (Suc (2 ^ 64)) OpCreateEntity)))"
  then have "distinct (map ?f [0..<Suc (2 ^ 64)])"
    by (simp only: calls_ids creations_replicate)
  then have "inj_on ?f (set [0..<Suc (2 ^ 64)])"
    by (simp only: distinct_map)
  moreover have "?f 0 = ?f (2 ^ 64)"
    by simp
  moreover have "0 \<in> set [0..<Suc (2 ^ 64)]" "2 ^ 64 \<in> set [0..<Suc (2 ^ 64)]"
    by (simp_all only: set_upt atLeastLessThan_iff) simp_all
  ultimately have "(0::nat) = 2 ^ 64"
    by (rule inj_onD)
  then show False by simp
qed

section \<open>Destroyed entities\<close>

lemma live_entity_was_returned:
  "entities (snd (calls NewWorld cs)) entityID \<noteq> None \<Longrightarrow> entityID \<in> set (fst (calls NewWorld cs))"
  using calls_dom [of NewWorld cs] by (auto simp: NewWorld_def)

text \<open>
  C7 (as amended). Let \<open>entityID\<close> be an ID that \<open>CreateEntity\<close> has returned (every
  stored entity has one, by \<open>live_entity_was_returned\<close>). After \<open>DestroyEntity\<close>,
  \<open>GetComponent\<close> returns \<open>nil\<close> for every type, and after any further series of calls
  \<open>GetEntitiesWithComponent\<close> does not list the ID, as long as the world sees at most
  \<open>2 ^ 64\<close> calls of \<open>CreateEntity\<close> in all.
\<close>

theorem C7_destroyed_id_stays_absent_until_wrap:
  assumes "entityID \<in> set (fst (calls NewWorld cs))"
    and "creations cs + creations ds \<le> 2 ^ 64"
  shows "GetComponent (DestroyEntity (snd (calls NewWorld cs)) entityID ks) entityID t = None
       \<and> entityID \<notin> set (GetEntitiesWithComponent
             (snd (calls (DestroyEntity (snd (calls NewWorld cs)) entityID ks) ds)) ord t)"
proof -
  let ?w = "DestroyEntity (snd (calls NewWorld cs)) entityID ks"
  let ?n = "creations cs"
  have gone: "entities ?w entityID = None"
    by simp
  have nxt: "nextEntityID ?w = of_nat ?n"
    by (simp add: calls_nextEntityID NewWorld_def)
  obtain j where j: "j < ?n" "entityID = of_nat j"
    using assms(1) by (auto simp: calls_ids NewWorld_def)
  have "entityID \<notin> set (fst (calls ?w ds))"
  proof
    assume "entityID \<in> set (fst (calls ?w ds))"
    then obtain k where k: "k < creations ds" "entityID = of_nat (?n + k)"
      by (auto simp: calls_ids calls_nextEntityID NewWorld_def)
    have "j < ?n + k" "?n + k < 2 ^ 64"
      using j(1) k(1) assms(2) by simp_all
    then have "(of_nat j :: 64 word) \<noteq> of_nat (?n + k)"
      by (rule of_nat_neq_64)
    with j(2) k(2) show False by simp
  qed
  with gone calls_dom [of ?w ds] have "entities (snd (calls ?w ds)) entityID = None"
    by blast
  then have "\<not> hasComponent (snd (calls ?w ds)) t entityID"
    by (simp add: hasComponent_def)
  then have "entityID \<notin> set (GetEntitiesWithComponent (snd (calls ?w ds)) ord t)"
    by (simp add: GetEntitiesWithComponent_def)
  moreover have "GetComponent ?w entityID t = None"
    using gone by (simp add: GetComponent_def)
  ultimately show ?thesis by blast
qed

text \<open>
  Entity 0 is created, tagged and destroyed. A later \<open>AddComponent\<close> for ID 0 is a
  no-op, and only the new entity 1 is listed.
\<close>

theorem C7_witness:
  "GetComponent (DestroyEntity (snd (calls NewWorld [OpCreateEntity, OpAddComponent 0 (TagComponent [])]))
       0 [''tag'']) 0 ''tag'' = None
   \<and> GetEntitiesWithComponent
        (snd (calls (DestroyEntity (snd (calls NewWorld [OpCreateEntity, OpAddComponent 0 (TagComponent [])]))
                0 [''tag''])
           [OpCreateEntity, OpAddComponent 0 (TagComponent []), OpAddComponent 1 (TagComponent [])]))
        [1] ''tag'' = [1]"
  using C7_destroyed_id_stays_absent_until_wrap
    [of 0 "[OpCreateEntity, OpAddComponent 0 (TagComponent [])]"
       "[OpCreateEntity, OpAddComponent 0 (TagComponent []), OpAddComponent 1 (TagComponent [])]"
       "[''tag'']" "''tag''" "[1]"]
  by (simp add: creations_def NewWorld_def GetEntitiesWithComponent_def hasComponent_def
      AddComponent_def Let_def)

text \<open>
  After \<open>n + 1\<close> further creations the counter has handed out \<open>nextEntityID w + n\<close>,
  and the entity of that ID takes components.
\<close>

lemma recreate_after_wrap:
  assumes "nextEntityID w + of_nat n = entityID"
  shows "hasComponent
           (snd (calls w (replicate (Suc n) OpCreateEntity @ [OpAddComponent entityID c])))
           (GetType c) entityID"
proof -
  let ?w1 = "snd (calls w (replicate n OpCreateEntity))"
  have "replicate (Suc n) OpCreateEntity @ [OpAddComponent entityID c]
      = replicate n OpCreateEntity @ [OpCreateEntity, OpAddComponent entityID c]"
    by (simp add: replicate_append_same)
  then have "snd (calls w (replicate (Suc n) OpCreateEntity @ [OpAddComponent entityID c]))
      = snd (calls ?w1 [OpCreateEntity, OpAddComponent entityID c])"
    by (simp only: calls_append)
  moreover have "nextEntityID ?w1 = entityID"
    using assms by (simp add: calls_nextEntityID creations_replicate)
  ultimately show ?thesis
    by (simp add: hasComponent_def AddComponent_def Let_def)
qed

text \<open>
  Two ways in which a destroyed ID is listed again. First, \<open>DestroyEntity 0\<close> on a new
  world is a no-op, and the next \<open>CreateEntity\<close> returns 0. Second, entity 0 is created,
  tagged and destroyed; the \<open>2 ^ 64\<close>-th creation after that returns 0 again (the
  counter wraps), and the new entity 0 is tagged. Every ID is then in use, so the range
  over the entity map yields all \<open>2 ^ 64\<close> of them.
\<close>

theorem C7_counterexample:
  "GetEntitiesWithComponent
     (snd (calls (DestroyEntity NewWorld 0 []) [OpCreateEntity, OpAddComponent 0 (TagComponent [])]))
     [0] ''tag'' = [0]
   \<and> 0 \<in> set (GetEntitiesWithComponent
        (snd (calls (DestroyEntity (snd (calls NewWorld [OpCreateEntity, OpAddComponent 0 (TagComponent [])]))
                0 [''tag''])
           (replicate (Suc (2 ^ 64 - 1)) OpCreateEntity @ [OpAddComponent 0 (TagComponent [])])))
        (map of_nat [0..<2 ^ 64]) ''tag'')"
proof
  show "GetEntitiesWithComponent
     (snd (calls (DestroyEntity NewWorld 0 []) [OpCreateEntity, OpAddComponent 0 (TagComponent [])]))
     [0] ''tag'' = [0]"
    by (simp add: NewWorld_def GetEntitiesWithComponent_def hasComponent_def AddComponent_def
        DestroyEntity_def Let_def)
next
  let ?w = "DestroyEntity (snd (calls NewWorld [OpCreateEntity, OpAddComponent 0 (TagComponent [])]))
                0 [''tag'']"
  have "nextEntityID ?w + of_nat (2 ^ 64 - 1) = 0"
    by (simp add: NewWorld_def)
  then have "hasComponent
      (snd (calls ?w (replicate (Suc (2 ^ 64 - 1)) OpCreateEntity @ [OpAddComponent 0 (TagComponent [])])))
      (GetType (TagComponent [])) 0"
    by (rule recreate_after_wrap)
  moreover have "(0::64 word) \<in> set (map of_nat [0..<2 ^ 64])"
  proof -
    have "(0::nat) \<in> set [0..<2 ^ 64]"
      by (simp only: set_upt atLeastLessThan_iff) simp
    moreover have "(0::64 word) = of_nat (0::nat)"
      by simp
    ultimately have "(0::64 word) \<in> of_nat ` set [0..<2 ^ 64]"
      by (rule rev_image_eqI)
    then show ?thesis by (simp only: set_map)
  qed
  ultimately show "0 \<in> set (GetEntitiesWithComponent
        (snd (calls ?w (replicate (Suc (2 ^ 64 - 1)) OpCreateEntity @ [OpAddComponent 0 (TagComponent [])])))
        (map of_nat [0..<2 ^ 64]) ''tag'')"
    by (simp only: GetEntitiesWithComponent_def set_filter GetType.simps mem_Collect_eq simp_thms)
qed

section \<open>Bodies without inverse mass\<close>

lemma Add_zero [simp]: "Add (v::Vector2) \<lparr>X = 0, Y = 0\<rparr> = v"
  by (simp add: Add_def)

lemma Mul_zero [simp]: "Mul v 0 = \<lparr>X = 0, Y = 0\<rparr>"
  by (simp add: Mul_def)

lemma Mul_zero_vector [simp]: "Mul \<lparr>X = 0, Y = 0\<rparr> s = \<lparr>X = 0, Y = 0\<rparr>"
  by (simp add: Mul_def)

lemma integrate_at_apply:
  "integrate_at g dt a h r = (if r = a then integrate g dt (h a) else h r)"
  by (simp add: integrate_at_def)

lemma integrate_inactive: "\<not> BodyActive b \<Longrightarrow> integrate g dt b = b"
  by (simp add: integrate_def)

lemma integrate_fields [simp]:
  "BodyActive (integrate g dt b) = BodyActive b"
  "Mass (integrate g dt b) = Mass b"
  "InverseMass (integrate g dt b) = InverseMass b"
  "Width (integrate g dt b) = Width b"
  "Height (integrate g dt b) = Height b"
  "BodyID (integrate g dt b) = BodyID b"
  by (simp_all add: integrate_def Let_def)

lemma integrate_massless_Velocity:
  "InverseMass b = 0 \<Longrightarrow> Velocity (integrate g dt b) = Velocity b"
  by (simp add: integrate_def Let_def)

lemma integrate_massless_Position:
  "InverseMass b = 0 \<Longrightarrow> Velocity b = \<lparr>X = 0, Y = 0\<rparr> \<Longrightarrow> Position (integrate g dt b) = Position b"
  by (simp add: integrate_def Let_def)

lemma resolveCollision_frame:
  "r \<noteq> body1 \<Longrightarrow> r \<noteq> body2 \<Longrightarrow> resolveCollision h body1 body2 r = h r"
  by (simp add: resolveCollision_def Let_def)

lemma resolveCollision_immovable:
  "InverseMass (h r) \<le> 0 \<Longrightarrow> resolveCollision h body1 body2 r = h r"
  by (cases "r = body1"; cases "r = body2") (auto simp: resolveCollision_def Let_def)

lemma collide_with_frame:
  "r \<noteq> body_i \<Longrightarrow> r \<notin> set bs \<Longrightarrow> collide_with h body_i bs r = h r"
  by (induction bs arbitrary: h) (simp_all add: resolveCollision_frame)

lemma collide_pairs_frame:
  "r \<notin> set bs \<Longrightarrow> collide_pairs h bs r = h r"
  by (induction bs arbitrary: h) (simp_all add: collide_with_frame)

lemma collide_with_immovable:
  "InverseMass (h r) \<le> 0 \<Longrightarrow> collide_with h body_i bs r = h r"
  by (induction bs arbitrary: h) (simp_all add: resolveCollision_immovable)

lemma collide_pairs_immovable:
  "InverseMass (h r) \<le> 0 \<Longrightarrow> collide_pairs h bs r = h r"
  by (induction bs arbitrary: h) (simp_all add: collide_with_immovable)

lemma checkCollisions_immovable:
  "InverseMass (h r) \<le> 0 \<Longrightarrow> checkCollisions h w ord r = h r"
  by (simp add: checkCollisions_def collide_pairs_immovable)

lemma checkCollisions_inactive:
  "\<not> BodyActive (h r) \<Longrightarrow> checkCollisions h w ord r = h r"
  by (simp add: checkCollisions_def collide_pairs_frame)

lemma fold_integrate_inactive:
  "\<not> BodyActive (h r) \<Longrightarrow>
   fold (integrate_at g dt) rs h r = h r"
proof (induction rs arbitrary: h)
  case Nil
  then show ?case by simp
next
  case (Cons a rs)
  let ?h = "integrate_at g dt a h"
  have eq: "?h r = h r"
    using Cons.prems by (auto simp: integrate_at_apply integrate_inactive)
  then have "\<not> BodyActive (?h r)"
    using Cons.prems by simp
  from Cons.IH [of ?h, OF this] eq show ?case by simp
qed

lemma fold_integrate_Active:
  "BodyActive (fold (integrate_at g dt) rs h r) = BodyActive (h r)"
  by (induction rs arbitrary: h) (simp_all add: integrate_at_apply)

lemma fold_integrate_massless:
  "InverseMass (h r) = 0 \<Longrightarrow>
   InverseMass (fold (integrate_at g dt) rs h r) = 0
   \<and> Velocity (fold (integrate_at g dt) rs h r) = Velocity (h r)
   \<and> (Velocity (h r) = \<lparr>X = 0, Y = 0\<rparr> \<longrightarrow>
        Position (fold (integrate_at g dt) rs h r) = Position (h r))"
proof (induction rs arbitrary: h)
  case Nil
  then show ?case by simp
next
  case (Cons a rs)
  let ?h = "integrate_at g dt a h"
  have 1: "InverseMass (?h r) = 0" using Cons.prems by (auto simp: integrate_at_apply)
  have 2: "Velocity (?h r) = Velocity (h r)"
    using Cons.prems by (auto simp: integrate_at_apply integrate_massless_Velocity)
  have 3: "Velocity (h r) = \<lparr>X = 0, Y = 0\<rparr> \<Longrightarrow> Position (?h r) = Position (h r)"
    using Cons.prems by (auto simp: integrate_at_apply integrate_massless_Position)
  from Cons.IH [of ?h, OF 1] 2 3 show ?case by simp
qed

text \<open>
  C1 (as amended). Take a body of mass 0 and inverse mass 0 whose position, velocity and
  accumulated force are finite, a finite gravity vector and a finite time step for which
  force times time step does not overflow. One \<open>Update\<close> leaves the velocity of the body
  as it is, whatever the gravity, the time step and the overlaps with other bodies are
  within that range; it leaves the position as it is when the velocity is zero or the
  body is inactive. On these values the \<open>float64\<close> operations on the body are exact:
  gravity times the mass is 0, force times time step is finite, that times the inverse
  mass is 0, and adding 0 changes nothing.
\<close>

theorem C1_massless_body_keeps_velocity:
  assumes "Mass (h r) = 0" and "InverseMass (h r) = 0"
    and "finite64 dt" and "finite_vector (gravity w)"
    and "finite_vector (Position (h r))" and "finite_vector (Velocity (h r))"
    and "finite_vector (Force (h r))" and "finite_vector (Mul (Force (h r)) dt)"
  shows "Velocity (Update h w dt ord1 ord2 r) = Velocity (h r)
       \<and> (Velocity (h r) = \<lparr>X = 0, Y = 0\<rparr> \<or> \<not> BodyActive (h r) \<longrightarrow>
            Position (Update h w dt ord1 ord2 r) = Position (h r))"
proof -
  let ?h1 = "integrate_all h w dt ord1"
  have m: "InverseMass (?h1 r) = 0" "Velocity (?h1 r) = Velocity (h r)"
    and p: "Velocity (h r) = \<lparr>X = 0, Y = 0\<rparr> \<Longrightarrow> Position (?h1 r) = Position (h r)"
    using fold_integrate_massless [of h r "gravity w" dt "range_bodies w ord1", OF assms(2)]
    by (simp_all add: integrate_all_def)
  have q: "\<not> BodyActive (h r) \<Longrightarrow> ?h1 r = h r"
    by (simp add: integrate_all_def fold_integrate_inactive)
  have "Update h w dt ord1 ord2 r = ?h1 r"
    using m(1) by (simp add: Update_def checkCollisions_immovable)
  then show ?thesis using m p q by auto
qed

text \<open>
  A body of mass 0 and inverse mass 0 that carries the velocity \<open>(1, 0)\<close> is moved
  from the origin to \<open>(1, 0)\<close> by one \<open>Update\<close> with time step 1.
\<close>

theorem C1_counterexample:
  "Mass kinematic_body = 0 \<and> InverseMass kinematic_body = 0
   \<and> Position kinematic_body = \<lparr>X = 0, Y = 0\<rparr>
   \<and> Position (Update (\<lambda>r. kinematic_body)
                  (AddBody (\<lambda>r. kinematic_body) NewPhysicsWorld 0) 1 [1] [1] 0)
       = \<lparr>X = 1, Y = 0\<rparr>"
  by (simp add: kinematic_body_def NewRigidBody_def Update_def integrate_all_def
      checkCollisions_def range_bodies_def List.map_filter_simps AddBody_def NewPhysicsWorld_def
      integrate_at_def integrate_def Let_def Add_def Mul_def)

text \<open>
  The integration loop on \<open>anchor_world\<close>, under the default gravity: the body of
  mass 0 is as before, the other has fallen to \<open>(0, -2)\<close>.
\<close>

lemma anchor_integrated:
  "integrate_all anchor_heap anchor_world 1 [1, 2]
     = anchor_heap(1 := (anchor_heap 1)\<lparr>Velocity := \<lparr>X = 0, Y = - (981 / 100)\<rparr>,
                                         Position := \<lparr>X = 0, Y = - 2\<rparr>\<rparr>)"
  by (simp add: fun_eq_iff integrate_all_def range_bodies_def List.map_filter_simps anchor_world_def
      anchor_heap_def AddBody_def NewPhysicsWorld_def NewRigidBody_def integrate_at_def integrate_def
      Let_def Add_def Mul_def)

text \<open>
  In the collision pass the two bodies overlap by 4. The falling body takes the whole
  correction and ends at \<open>(0, -4)\<close>; the body of mass 0 keeps its velocity and its
  position.
\<close>

theorem C1_witness:
  "checkCollision (integrate_all anchor_heap anchor_world 1 [1, 2] 0)
                  (integrate_all anchor_heap anchor_world 1 [1, 2] 1)
   \<and> collision_overlap (integrate_all anchor_heap anchor_world 1 [1, 2] 0)
                         (integrate_all anchor_heap anchor_world 1 [1, 2] 1) = 4
   \<and> Position (Update anchor_heap anchor_world 1 [1, 2] [1, 2] 1) = \<lparr>X = 0, Y = - 4\<rparr>
   \<and> Velocity (Update anchor_heap anchor_world 1 [1, 2] [1, 2] 0) = \<lparr>X = 0, Y = 0\<rparr>
   \<and> Position (Update anchor_heap anchor_world 1 [1, 2] [1, 2] 0) = \<lparr>X = 0, Y = 0\<rparr>"
proof -
  have "checkCollision (integrate_all anchor_heap anchor_world 1 [1, 2] 0)
                  (integrate_all anchor_heap anchor_world 1 [1, 2] 1)"
    by (simp add: anchor_integrated) (simp add: anchor_heap_def NewRigidBody_def checkCollision_def)
  moreover have "collision_overlap (integrate_all anchor_heap anchor_world 1 [1, 2] 0)
                         (integrate_all anchor_heap anchor_world 1 [1, 2] 1) = 4"
    by (simp add: anchor_integrated)
       (simp add: anchor_heap_def NewRigidBody_def collision_overlap_def separation_distance_def
          Length_def Sub_def Let_def)
  moreover have "Position (Update anchor_heap anchor_world 1 [1, 2] [1, 2] 1) = \<lparr>X = 0, Y = - 4\<rparr>"
    by (simp add: Update_def anchor_integrated)
       (simp add: checkCollisions_def range_bodies_def List.map_filter_simps anchor_world_def
          anchor_heap_def AddBody_def NewPhysicsWorld_def NewRigidBody_def checkCollision_def
          resolveCollision_def collision_normal_def collision_overlap_def separation_distance_def
          Length_def Sub_def Add_def Mul_def Div_def Let_def)
  moreover have "Velocity (Update anchor_heap anchor_world 1 [1, 2] [1, 2] 0) = \<lparr>X = 0, Y = 0\<rparr>
   \<and> Position (Update anchor_heap anchor_world 1 [1, 2] [1, 2] 0) = \<lparr>X = 0, Y = 0\<rparr>"
    using C1_massless_body_keeps_velocity [of anchor_heap 0 1 anchor_world "[1, 2]" "[1, 2]"]
    by (simp add: anchor_heap_def anchor_world_def NewRigidBody_def AddBody_def NewPhysicsWorld_def
        finite64_def finite_vector_def MaxFloat64_def Mul_def)
  ultimately show ?thesis by blast
qed

section \<open>Inactive bodies\<close>

lemma map_filter_removeAll_upd:
  "List.map_filter (f(k := None)) (removeAll k ks) = List.map_filter f (removeAll k ks)"
  by (induction ks) (auto simp: List.map_filter_simps split: option.splits)

lemma fold_integrate_skip:
  assumes "f k = Some r" and "\<not> BodyActive (h r)"
  shows "fold (integrate_at g dt) (List.map_filter f (removeAll k ks)) h
       = fold (integrate_at g dt) (List.map_filter f ks) h"
  using assms(2)
proof (induction ks arbitrary: h)
  case Nil
  then show ?case by simp
next
  case (Cons a ks)
  show ?case
  proof (cases "a = k")
    case True
    have step: "integrate_at g dt r h = h"
      using Cons.prems by (simp add: integrate_at_def integrate_inactive)
    have "fold (integrate_at g dt) (List.map_filter f (a # ks)) h
        = fold (integrate_at g dt) (List.map_filter f ks)
            (integrate_at g dt r h)"
      using True assms(1) by (simp add: List.map_filter_simps)
    also have "\<dots> = fold (integrate_at g dt) (List.map_filter f ks) h"
      by (simp only: step)
    also have "\<dots> = fold (integrate_at g dt)
                         (List.map_filter f (removeAll k ks)) h"
      by (rule Cons.IH [of h, OF Cons.prems, symmetric])
    finally show ?thesis
      using True by simp
  next
    case False
    show ?thesis
    proof (cases "f a")
      case None
      then show ?thesis using False Cons.IH [of h, OF Cons.prems] by (simp add: List.map_filter_simps)
    next
      case (Some b)
      let ?h = "integrate_at g dt b h"
      have "\<not> BodyActive (?h r)" using Cons.prems by (auto simp: integrate_at_apply)
      from Cons.IH [of ?h, OF this] show ?thesis
        using False Some by (simp add: List.map_filter_simps)
    qed
  qed
qed

lemma filter_active_skip:
  assumes "f k = Some r" and "\<not> BodyActive (h r)"
  shows "filter (\<lambda>body. BodyActive (h body)) (List.map_filter f (removeAll k ks))
       = filter (\<lambda>body. BodyActive (h body)) (List.map_filter f ks)"
  using assms by (induction ks) (auto simp: List.map_filter_simps split: option.splits)

text \<open>
  C6. An inactive body stored under the key \<open>k\<close> is left as it is by \<open>Update\<close>
  (position, velocity, force and all other fields), it is not in the slice of bodies
  that \<open>checkCollisions\<close> tests and resolves, and \<open>Update\<close> leaves the store as it
  does on the world from which the body has been removed: no other body is displaced
  because of it.
\<close>

theorem C6_inactive_body_is_frozen:
  assumes "bodies w k = Some r" and "\<not> BodyActive (h r)"
  shows "Update h w dt ord1 ord2 r = h r
       \<and> r \<notin> set (filter (\<lambda>body. BodyActive (integrate_all h w dt ord1 body)) (range_bodies w ord2))
       \<and> Update h (RemoveBody w k) dt (removeAll k ord1) (removeAll k ord2) = Update h w dt ord1 ord2"
proof -
  let ?h1 = "integrate_all h w dt ord1"
  have h1: "?h1 r = h r"
    using assms(2) by (simp add: integrate_all_def fold_integrate_inactive)
  then have inact: "\<not> BodyActive (?h1 r)"
    using assms(2) by simp
  have a: "Update h w dt ord1 ord2 r = h r"
    using inact h1 by (simp add: Update_def checkCollisions_inactive)
  have b: "r \<notin> set (filter (\<lambda>body. BodyActive (?h1 body)) (range_bodies w ord2))"
    using inact by simp
  have i: "integrate_all h (RemoveBody w k) dt (removeAll k ord1) = ?h1"
    using fold_integrate_skip [of "bodies w" k r h "gravity w" dt ord1, OF assms]
    by (simp add: integrate_all_def range_bodies_def RemoveBody_def map_filter_removeAll_upd)
  have "checkCollisions ?h1 (RemoveBody w k) (removeAll k ord2) = checkCollisions ?h1 w ord2"
    using filter_active_skip [of "bodies w" k r ?h1 ord2, OF assms(1) inact]
    by (simp add: checkCollisions_def range_bodies_def RemoveBody_def map_filter_removeAll_upd)
  then have c: "Update h (RemoveBody w k) dt (removeAll k ord1) (removeAll k ord2) = Update h w dt ord1 ord2"
    using i by (simp add: Update_def)
  from a b c show ?thesis by blast
qed

text \<open>
  An inactive body lies inside an active one: it is not moved, and the active body
  falls as it does alone.
\<close>

theorem C6_witness:
  "bodies sleeping_world 1 = Some 0 \<and> \<not> BodyActive (sleeping_heap 0)
   \<and> Update sleeping_heap sleeping_world (1 / 60) [1, 2] [2, 1] 0 = sleeping_body
   \<and> Update sleeping_heap (RemoveBody sleeping_world 1) (1 / 60) [2] [2]
       = Update sleeping_heap sleeping_world (1 / 60) [1, 2] [2, 1]"
  using C6_inactive_body_is_frozen [of sleeping_world 1 0 sleeping_heap "1 / 60" "[1, 2]" "[2, 1]"]
  by (simp add: sleeping_world_def sleeping_heap_def sleeping_body_def AddBody_def
      NewPhysicsWorld_def NewRigidBody_def)

section \<open>One step from rest\<close>

text \<open>
  C9. A body built by \<open>NewRigidBody\<close> with mass 1 at the origin (at rest, no force,
  active) is the only body of a new world, whose gravity is \<open>(0, -9.81)\<close>. After one
  \<open>Update\<close> with time step \<open>1 / 60\<close> its velocity is \<open>(0, -9.81 / 60)\<close> and its position
  is that velocity times the time step.
\<close>

theorem C9_one_step_from_rest:
  "Velocity (Update (h(r := NewRigidBody bodyID \<lparr>X = 0, Y = 0\<rparr> width height 1))
              (AddBody (h(r := NewRigidBody bodyID \<lparr>X = 0, Y = 0\<rparr> width height 1)) NewPhysicsWorld r)
              (1 / 60) [bodyID] [bodyID] r)
     = \<lparr>X = 0, Y = - (981 / 100) / 60\<rparr>
   \<and> Position (Update (h(r := NewRigidBody bodyID \<lparr>X = 0, Y = 0\<rparr> width height 1))
              (AddBody (h(r := NewRigidBody bodyID \<lparr>X = 0, Y = 0\<rparr> width height 1)) NewPhysicsWorld r)
              (1 / 60) [bodyID] [bodyID] r)
     = Mul (Velocity (Update (h(r := NewRigidBody bodyID \<lparr>X = 0, Y = 0\<rparr> width height 1))
              (AddBody (h(r := NewRigidBody bodyID \<lparr>X = 0, Y = 0\<rparr> width height 1)) NewPhysicsWorld r)
              (1 / 60) [bodyID] [bodyID] r)) (1 / 60)"
  by (simp add: NewRigidBody_def Update_def integrate_all_def
      checkCollisions_def range_bodies_def List.map_filter_simps AddBody_def NewPhysicsWorld_def
      integrate_at_def integrate_def Let_def Add_def Mul_def)

section \<open>The overlap used by collision resolution\<close>

lemma Length_eq_0_iff: "Length v = 0 \<longleftrightarrow> X v = 0 \<and> Y v = 0"
  by (simp add: Length_def sum_squares_eq_zero_iff)

lemma collision_distinct_centres:
  assumes "Position body1 \<noteq> Position body2"
  shows "collision_overlap body1 body2
           = (Width body1 + Width body2) / 2 - Length (Sub (Position body2) (Position body1))"
    and "collision_normal body1 body2
           = Div (Sub (Position body2) (Position body1)) (Length (Sub (Position body2) (Position body1)))"
proof -
  have "Length (Sub (Position body2) (Position body1)) \<noteq> 0"
    using assms by (auto simp: Length_eq_0_iff Sub_def intro: Vector2.equality)
  then show "collision_overlap body1 body2
           = (Width body1 + Width body2) / 2 - Length (Sub (Position body2) (Position body1))"
    and "collision_normal body1 body2
           = Div (Sub (Position body2) (Position body1)) (Length (Sub (Position body2) (Position body1)))"
    by (simp_all add: collision_overlap_def collision_normal_def separation_distance_def Let_def)
qed

lemma collision_coincident_centres:
  assumes "Position body1 = Position body2"
  shows "collision_overlap body1 body2 = (Width body1 + Width body2) / 2 - 1"
    and "collision_normal body1 body2 = \<lparr>X = 1, Y = 0\<rparr>"
  using assms
  by (simp_all add: collision_overlap_def collision_normal_def separation_distance_def Let_def
      Length_def Sub_def Div_def)

text \<open>
  C5. Two active bodies of width 1 with the same centre collide. The separation direction
  is \<open>(1, 0)\<close>, but the overlap that \<open>resolveCollision\<close> uses is 0 and the bodies are
  left where they are, while half the sum of the widths minus the distance of the centres
  is 1: the value 1 that replaces the zero distance for the normalisation is also
  subtracted. For centres that differ the overlap is the one the claim states
  (\<open>collision_distinct_centres\<close>).
\<close>

theorem C5_coincident_centres:
  "checkCollision coincident_body1 coincident_body2
   \<and> Length (Sub (Position coincident_body2) (Position coincident_body1)) = 0
   \<and> collision_normal coincident_body1 coincident_body2 = \<lparr>X = 1, Y = 0\<rparr>
   \<and> (Width coincident_body1 + Width coincident_body2) / 2
        - Length (Sub (Position coincident_body2) (Position coincident_body1)) = 1
   \<and> collision_overlap coincident_body1 coincident_body2 = 0
   \<and> resolveCollision ((\<lambda>r. coincident_body2)(0 := coincident_body1)) 0 1
        = (\<lambda>r. coincident_body2)(0 := coincident_body1)"
  by (simp add: coincident_body1_def coincident_body2_def NewRigidBody_def checkCollision_def
      collision_normal_def collision_overlap_def separation_distance_def resolveCollision_def
      Length_def Sub_def Div_def Let_def)

end
